theory Spec2Isabelle
  imports Complex_Main "HOL-Library.Log_Nat"
begin

section \<open>Email Buddy: the email lifecycle store of \<open>EMAIL BUDDY/script.js\<close>\<close>

text \<open>
  The class \<open>EmailDispenser\<close> keeps a list of generated addresses with their expiration
  stamps, persists it in the browser's local storage, polls a remote mailbox service and
  formats the time an address has left. This theory embeds the methods of that class that
  own state or compute a displayed value. Methods that only render markup
  (\<open>updateDatabaseDisplay\<close>, \<open>updateMessageDisplay\<close>) read the state and leave it as it
  is, so their calls do not appear. The page is taken to hold the elements the script
  looks up by id.
\<close>

subsection \<open>Numbers\<close>

text \<open>
  A JavaScript number is an IEEE double: \<open>NaN\<close>, an infinity, or a finite value,
  which is a rational \<open>m * 2^k\<close> with \<open>\<bar>m\<bar> < 2^53\<close> and \<open>k \<ge> -1074\<close>. The two zeros
  are not told apart: the script never divides by a zero, and both are falsy and compare
  alike.
\<close>

datatype number = NaN | Num rat | PosInf | NegInf

text \<open>Rounding to the nearest integer, a tie going to the even one.\<close>

definition round_even :: "rat \<Rightarrow> int" where
  "round_even q =
     (let f = \<lfloor>q\<rfloor>; r = q - of_int f
      in if r < 1 / 2 then f else if 1 / 2 < r then f + 1 else if even f then f else f + 1)"

text \<open>For positive \<open>x\<close>, the exponent \<open>e\<close> with \<open>2^e \<le> x < 2^(e+1)\<close>.\<close>

definition floor_log2 :: "rat \<Rightarrow> int" where
  "floor_log2 x =
     (case quotient_of x of
        (p, q) \<Rightarrow> (let e = bitlen p - bitlen q in if 2 powi e \<le> x then e else e - 1))"

text \<open>
  The double nearest to an exact value, before the range is looked at: doubles around
  \<open>x\<close> are the multiples of \<open>2^k\<close>, where \<open>k\<close> is 52 below the exponent of \<open>x\<close> and at
  least \<open>-1074\<close> (the subnormal spacing).
\<close>

definition to_double :: "rat \<Rightarrow> rat" where
  "to_double x =
     (if x = 0 then 0
      else (let k = max (floor_log2 \<bar>x\<bar> - 52) (- 1074)
            in of_int (round_even (x / 2 powi k)) * 2 powi k))"

text \<open>
  The result of an arithmetic operation whose exact value is \<open>x\<close>: rounded, and an
  infinity when the rounded value leaves the range of doubles, that is when its magnitude
  reaches \<open>2^1024\<close>.
\<close>

definition double_of :: "rat \<Rightarrow> number" where
  "double_of x =
     (let y = to_double x
      in if y = 0 then Num 0
         else if 1024 \<le> floor_log2 \<bar>y\<bar> then (if 0 < y then PosInf else NegInf)
         else Num y)"

text \<open>A rational is a double when rounding leaves it as it is.\<close>

definition is_double :: "rat \<Rightarrow> bool" where
  "is_double x = (double_of x = Num x)"

text \<open>\<open>!n\<close> on a number: only \<open>NaN\<close> and zero are falsy.\<close>

fun number_falsy :: "number \<Rightarrow> bool" where
  "number_falsy NaN = True"
| "number_falsy (Num r) = (r = 0)"
| "number_falsy PosInf = False"
| "number_falsy NegInf = False"

text \<open>\<open>a <= b\<close>: every comparison with \<open>NaN\<close> is false.\<close>

fun js_le :: "number \<Rightarrow> number \<Rightarrow> bool" where
  "js_le NaN b = False"
| "js_le a NaN = False"
| "js_le NegInf b = True"
| "js_le a PosInf = True"
| "js_le PosInf b = False"
| "js_le a NegInf = False"
| "js_le (Num a) (Num b) = (a \<le> b)"

fun number_sign :: "number \<Rightarrow> int" where
  "number_sign NaN = 0"
| "number_sign (Num r) = (if r < 0 then - 1 else if r = 0 then 0 else 1)"
| "number_sign PosInf = 1"
| "number_sign NegInf = - 1"

text \<open>\<open>a * b\<close>: an infinity times zero is \<open>NaN\<close>, otherwise the signs multiply.\<close>

fun js_mult :: "number \<Rightarrow> number \<Rightarrow> number" where
  "js_mult NaN b = NaN"
| "js_mult a NaN = NaN"
| "js_mult (Num a) (Num b) = double_of (a * b)"
| "js_mult a b =
     (let sg = number_sign a * number_sign b
      in if sg = 0 then NaN else if 0 < sg then PosInf else NegInf)"

text \<open>\<open>a + b\<close>: opposite infinities give \<open>NaN\<close>.\<close>

fun js_add :: "number \<Rightarrow> number \<Rightarrow> number" where
  "js_add NaN b = NaN"
| "js_add a NaN = NaN"
| "js_add (Num a) (Num b) = double_of (a + b)"
| "js_add PosInf NegInf = NaN"
| "js_add NegInf PosInf = NaN"
| "js_add PosInf b = PosInf"
| "js_add NegInf b = NegInf"
| "js_add a PosInf = PosInf"
| "js_add a NegInf = NegInf"

fun js_negate :: "number \<Rightarrow> number" where
  "js_negate NaN = NaN"
| "js_negate (Num r) = Num (- r)"
| "js_negate PosInf = NegInf"
| "js_negate NegInf = PosInf"

text \<open>Rounding toward zero, as the remainder operator and the date constructor do.\<close>

definition js_trunc :: "rat \<Rightarrow> int" where
  "js_trunc q = (if 0 \<le> q then \<lfloor>q\<rfloor> else \<lceil>q\<rceil>)"

text \<open>
  \<open>a % b\<close> on finite numbers with \<open>b\<close> not zero: the remainder has the sign of \<open>a\<close>,
  and it is exact (the remainder of two doubles is a double). The script only divides by
  the constants 1, 24, 60, 168 and 730.
\<close>

definition js_rem :: "rat \<Rightarrow> rat \<Rightarrow> rat" where
  "js_rem a b = a - b * of_int (js_trunc (a / b))"

subsection \<open>Integers in template strings\<close>

text \<open>
  A template literal prints an integer below \<open>10^21\<close> in magnitude as its decimal digits.
\<close>

definition digit_char :: "nat \<Rightarrow> char" where
  "digit_char d = ''0123456789'' ! d"

fun show_nat :: "nat \<Rightarrow> string" where
  "show_nat n =
     (if n < 10 then [digit_char n] else show_nat (n div 10) @ [digit_char (n mod 10)])"

declare show_nat.simps [simp del]

definition show_int :: "int \<Rightarrow> string" where
  "show_int i = (if i < 0 then ''-'' @ show_nat (nat (- i)) else show_nat (nat i))"

subsection \<open>\<open>parseFloat\<close>\<close>

text \<open>
  \<open>parseFloat\<close> skips leading white space (here the white space of ASCII), reads the
  longest prefix that is a decimal literal (an optional sign, then \<open>Infinity\<close> or digits
  with an optional fraction and an optional exponent) and gives the double nearest to its
  value; what follows the literal is ignored, and with no such prefix the result is
  \<open>NaN\<close>.
\<close>

definition is_space :: "char \<Rightarrow> bool" where
  "is_space c = (c \<in> set [CHR '' '', CHR 0x09, CHR 0x0A, CHR 0x0B, CHR 0x0C, CHR 0x0D])"

definition is_digit :: "char \<Rightarrow> bool" where
  "is_digit c = (c \<in> set ''0123456789'')"

definition digit_value :: "char \<Rightarrow> nat" where
  "digit_value c = of_char c - 48"

definition digits_value :: "string \<Rightarrow> nat" where
  "digits_value ds = foldl (\<lambda>a c. 10 * a + digit_value c) 0 ds"

text \<open>The digits of a signed integer, with its sign; no digit means no exponent part.\<close>

definition signed_digits :: "int \<Rightarrow> string \<Rightarrow> int" where
  "signed_digits sg s =
     (let ds = takeWhile is_digit s in if ds = [] then 0 else sg * int (digits_value ds))"

definition exponent_part :: "string \<Rightarrow> int" where
  "exponent_part s =
     (case s of
        [] \<Rightarrow> 0
      | c # t \<Rightarrow>
          if c = CHR ''e'' \<or> c = CHR ''E''
          then (case t of
                  [] \<Rightarrow> 0
                | d # u \<Rightarrow>
                    if d = CHR ''+'' then signed_digits 1 u
                    else if d = CHR ''-'' then signed_digits (- 1) u
                    else signed_digits 1 t)
          else 0)"

definition strUnsignedDecimal :: "string \<Rightarrow> number" where
  "strUnsignedDecimal s =
     (if take 8 s = ''Infinity'' then PosInf
      else (let ip = takeWhile is_digit s;
                r1 = dropWhile is_digit s;
                fp = (case r1 of
                        [] \<Rightarrow> []
                      | c # t \<Rightarrow> if c = CHR ''.'' then takeWhile is_digit t else []);
                r2 = (case r1 of
                        [] \<Rightarrow> []
                      | c # t \<Rightarrow> if c = CHR ''.'' then dropWhile is_digit t else r1)
            in if ip = [] \<and> fp = [] then NaN
               else double_of
                      (of_nat (digits_value (ip @ fp)) / 10 ^ length fp
                         * 10 powi exponent_part r2)))"

definition parseFloat :: "string \<Rightarrow> number" where
  "parseFloat s =
     (case dropWhile is_space s of
        [] \<Rightarrow> NaN
      | c # u \<Rightarrow>
          if c = CHR ''-'' then js_negate (strUnsignedDecimal u)
          else if c = CHR ''+'' then strUnsignedDecimal u
          else strUnsignedDecimal (c # u))"

subsection \<open>\<open>formatTimeLeft\<close>\<close>

text \<open>
  The hours left as \<open>getExpirationInfo\<close> and \<open>updateTimers\<close> compute them from the two
  time values: the difference of the milliseconds is exact, the division rounds.
\<close>

definition hoursLeft :: "int \<Rightarrow> int \<Rightarrow> rat" where
  "hoursLeft expirationDate now = to_double (of_int (expirationDate - now) / 3600000)"

text \<open>
  The argument is a finite double. Every product and quotient is rounded to a double
  (none of them leaves the range when the argument is finite), the constant \<open>1/60\<close> is
  the double that the division gives, and \<open>Math.floor\<close> is \<open>\<lfloor>_\<rfloor>\<close>.
\<close>

definition formatTimeLeft :: "rat \<Rightarrow> string" where
  "formatTimeLeft totalHours =
    (if totalHours < 0 then ''Expired''
     else if totalHours < to_double (1 / 60) then
       (let seconds = max 1 \<lfloor>to_double (totalHours * 3600)\<rfloor>
        in show_int seconds @ ''s'')
     else if totalHours < 1 then
       (let minutes = \<lfloor>to_double (totalHours * 60)\<rfloor>;
            seconds = \<lfloor>js_rem (to_double (totalHours * 3600)) 60\<rfloor>
        in show_int minutes @ ''m '' @ show_int seconds @ ''s'')
     else if totalHours < 24 then
       (let hours = \<lfloor>totalHours\<rfloor>;
            minutes = \<lfloor>to_double (js_rem totalHours 1 * 60)\<rfloor>
        in show_int hours @ ''h '' @ show_int minutes @ ''m'')
     else if totalHours < 168 then
       (let days = \<lfloor>to_double (totalHours / 24)\<rfloor>;
            hours = \<lfloor>js_rem totalHours 24\<rfloor>
        in show_int days @ ''d '' @ show_int hours @ ''h'')
     else if totalHours < 730 then
       (let weeks = \<lfloor>to_double (totalHours / 168)\<rfloor>;
            days = \<lfloor>to_double (js_rem totalHours 168 / 24)\<rfloor>
        in show_int weeks @ ''w '' @ show_int days @ ''d'')
     else
       (let months = \<lfloor>to_double (totalHours / 730)\<rfloor>;
            weeks = \<lfloor>to_double (js_rem totalHours 730 / 168)\<rfloor>
        in show_int months @ ''mo '' @ show_int weeks @ ''w''))"

subsection \<open>Entries, messages and the state of the dispenser\<close>

text \<open>
  An entry of \<open>emailDatabase\<close>. The fields \<open>date\<close> and \<open>expiration\<close> hold the strings
  written by \<open>toISOString\<close>, which \<open>new Date\<close> reads back to the same millisecond time
  value; the model keeps that time value. \<open>None\<close> is the \<open>null\<close> of an entry without
  expiration.
\<close>

record entry =
  email :: string
  date :: int
  expiration :: "int option"
  messages :: nat

text \<open>A message summary of the remote service, with the fields the script reads.\<close>

record message =
  msg_id :: int
  msg_from :: string
  msg_subject :: string

datatype toast_type = Success | Error

datatype js_error =
    RangeError
  | SyntaxError
  | NetworkError
  | HttpError nat
  | QuotaExceededError

text \<open>
  The fields of the instance that the embedded methods touch, and what the user is shown:
  \<open>toasts\<close> lists the calls of \<open>showToast\<close> in order, \<open>notifications\<close> the system
  notifications created (tag and message), \<open>expirationDialog\<close> tells whether the dialog
  is displayed.
\<close>

record state =
  currentEmail :: string
  emailDatabase :: "entry list"
  lastCheckedMessages :: "string \<rightharpoonup> int set"
  hasNotificationPermission :: bool
  deviceId :: string
  localStorage :: "string \<rightharpoonup> string"
  expirationDialog :: bool
  toasts :: "(string \<times> toast_type) list"
  notifications :: "(string \<times> message) list"

text \<open>
  What the browser provides: the JSON codec on entry collections, whether \<open>setItem\<close>
  runs out of quota for a value, how a number prints, and whether the Notification
  interface exists.
\<close>

record host =
  JSON_stringify :: "entry list \<Rightarrow> string"
  JSON_parse :: "string \<Rightarrow> js_error + entry list"
  storage_full :: "string \<Rightarrow> bool"
  Number_toString :: "number \<Rightarrow> string"
  Notification_in_window :: bool

text \<open>The response of one remote call, as far as the script distinguishes it.\<close>

datatype 'a response =
    Fetch_rejected
  | Status_not_ok nat
  | Body_not_json
  | Body 'a

text \<open>The decoded body of \<open>genRandomMailbox\<close>: an array of addresses or something else.\<close>

datatype mailbox_data = Not_array | Array "string list"

definition showToast :: "string \<Rightarrow> toast_type \<Rightarrow> state \<Rightarrow> state" where
  "showToast message type s = s\<lparr>toasts := toasts s @ [(message, type)]\<rparr>"

definition storageKey :: "state \<Rightarrow> string" where
  "storageKey s = ''emailDatabase_'' @ deviceId s"

subsection \<open>Persistence\<close>

definition localStorage_setItem :: "host \<Rightarrow> string \<Rightarrow> string \<Rightarrow> state \<Rightarrow> js_error + state" where
  "localStorage_setItem h key v s =
     (if storage_full h v then Inl QuotaExceededError
      else Inr (s\<lparr>localStorage := (localStorage s)(key \<mapsto> v)\<rparr>))"

text \<open>\<open>saveToLocalStorage\<close> catches what \<open>setItem\<close> raises and only logs it.\<close>

definition saveToLocalStorage :: "host \<Rightarrow> state \<Rightarrow> state" where
  "saveToLocalStorage h s =
     (case localStorage_setItem h (storageKey s) (JSON_stringify h (emailDatabase s)) s of
        Inl e \<Rightarrow> s
      | Inr s' \<Rightarrow> s')"

text \<open>
  The body of the \<open>try\<close> in \<open>loadFromLocalStorage\<close>: a missing record and the empty
  string are falsy and give the empty collection, anything else goes through
  \<open>JSON.parse\<close>, which may raise.
\<close>

definition loadFromLocalStorage_try :: "host \<Rightarrow> state \<Rightarrow> js_error + state" where
  "loadFromLocalStorage_try h s =
     (case localStorage s (storageKey s) of
        None \<Rightarrow> Inr (s\<lparr>emailDatabase := []\<rparr>)
      | Some stored \<Rightarrow>
          if stored = [] then Inr (s\<lparr>emailDatabase := []\<rparr>)
          else (case JSON_parse h stored of
                  Inl e \<Rightarrow> Inl e
                | Inr db \<Rightarrow> Inr (s\<lparr>emailDatabase := db\<rparr>)))"

definition loadFromLocalStorage :: "host \<Rightarrow> state \<Rightarrow> js_error + state" where
  "loadFromLocalStorage h s =
     (case loadFromLocalStorage_try h s of
        Inl e \<Rightarrow> Inr (s\<lparr>emailDatabase := []\<rparr>)
      | Inr s' \<Rightarrow> Inr s')"

subsection \<open>Generating an address\<close>

definition showExpirationDialog :: "state \<Rightarrow> state" where
  "showExpirationDialog s = s\<lparr>expirationDialog := True\<rparr>"

text \<open>
  The body of the \<open>try\<close> in \<open>generateNewEmail\<close>. A rejected fetch, a status that is
  not ok and a body that is not JSON raise; a decoded body that is not an array, or an
  empty array, fails the \<open>if\<close> and nothing is done.
\<close>

definition generateNewEmail_try :: "mailbox_data response \<Rightarrow> state \<Rightarrow> js_error + state" where
  "generateNewEmail_try resp s =
     (case resp of
        Fetch_rejected \<Rightarrow> Inl NetworkError
      | Status_not_ok n \<Rightarrow> Inl (HttpError n)
      | Body_not_json \<Rightarrow> Inl SyntaxError
      | Body data \<Rightarrow>
          (case data of
             Not_array \<Rightarrow> Inr s
           | Array [] \<Rightarrow> Inr s
           | Array (a # rest) \<Rightarrow> Inr (showExpirationDialog (s\<lparr>currentEmail := a\<rparr>))))"

definition generateNewEmail :: "mailbox_data response \<Rightarrow> state \<Rightarrow> state" where
  "generateNewEmail resp s =
     (case generateNewEmail_try resp s of
        Inl e \<Rightarrow> showToast ''Failed to generate email'' Error s
      | Inr s' \<Rightarrow> s')"

subsection \<open>Committing an address with an expiration\<close>

text \<open>
  \<open>new Date(t).toISOString()\<close>: the time value is clipped to the range of dates and
  rounded toward zero; a date that is not valid makes \<open>toISOString\<close> raise.
\<close>

definition new_Date_toISOString :: "number \<Rightarrow> js_error + int" where
  "new_Date_toISOString t =
     (case t of
        Num r \<Rightarrow> if \<bar>r\<bar> \<le> 8640000000000000 then Inr (js_trunc r) else Inl RangeError
      | _ \<Rightarrow> Inl RangeError)"

text \<open>\<open>hours\<close> is \<open>null\<close> (here \<open>None\<close>) or a number; \<open>null\<close> is falsy.\<close>

definition save_message :: "host \<Rightarrow> number option \<Rightarrow> string" where
  "save_message h hours =
     ''Email saved'' @
     (case hours of
        None \<Rightarrow> '' without expiration''
      | Some n \<Rightarrow>
          if number_falsy n then '' without expiration''
          else '' with '' @ Number_toString h n @ '' hour expiration'')"

text \<open>\<open>now\<close> is the clock, read by \<open>Date.now()\<close> and \<open>new Date()\<close>.\<close>

definition saveEmailWithExpiration :: "host \<Rightarrow> int \<Rightarrow> number option \<Rightarrow> state \<Rightarrow> js_error + state" where
  "saveEmailWithExpiration h now hours s =
     (case (case hours of
              None \<Rightarrow> Inr None
            | Some n \<Rightarrow>
                if number_falsy n then Inr None
                else map_sum id Some
                       (new_Date_toISOString
                          (js_add (Num (of_int now)) (js_mult n (Num 3600000))))) of
        Inl e \<Rightarrow> Inl e
      | Inr expirationTime \<Rightarrow>
          (let newEntry = \<lparr>email = currentEmail s, date = now,
                           expiration = expirationTime, messages = 0\<rparr>;
               s1 = s\<lparr>emailDatabase := emailDatabase s @ [newEntry]\<rparr>;
               s2 = saveToLocalStorage h s1;
               s3 = s2\<lparr>expirationDialog := False\<rparr>
           in Inr (showToast (save_message h hours) Success s3)))"

text \<open>
  \<open>timeValue\<close> and \<open>unitValue\<close> are the values of the two inputs of the dialog, the
  magnitude and the unit.
\<close>

definition saveCustomExpiration :: "host \<Rightarrow> int \<Rightarrow> string \<Rightarrow> string \<Rightarrow> state \<Rightarrow> js_error + state" where
  "saveCustomExpiration h now timeValue unitValue s =
     (let time = parseFloat timeValue;
          unit = parseFloat unitValue
      in if number_falsy time \<or> js_le time (Num 0)
         then Inr (showToast ''Please enter a valid time'' Error s)
         else saveEmailWithExpiration h now (Some (js_mult time unit)) s)"

subsection \<open>Recording the message count\<close>

text \<open>\<open>Array.prototype.findIndex\<close>: the first index that satisfies, or \<open>-1\<close>.\<close>

fun findIndex_from :: "('a \<Rightarrow> bool) \<Rightarrow> 'a list \<Rightarrow> nat \<Rightarrow> int" where
  "findIndex_from p [] i = - 1"
| "findIndex_from p (x # xs) i = (if p x then int i else findIndex_from p xs (Suc i))"

definition findIndex :: "('a \<Rightarrow> bool) \<Rightarrow> 'a list \<Rightarrow> int" where
  "findIndex p xs = findIndex_from p xs 0"

definition updateMessageCount :: "host \<Rightarrow> nat \<Rightarrow> state \<Rightarrow> state" where
  "updateMessageCount h count s =
     (let index = findIndex (\<lambda>e. email e = currentEmail s) (emailDatabase s)
      in if index \<noteq> - 1
         then saveToLocalStorage h
                (s\<lparr>emailDatabase :=
                     (emailDatabase s)[nat index :=
                        (emailDatabase s ! nat index)\<lparr>messages := count\<rparr>]\<rparr>)
         else s)"

subsection \<open>Polling the inbox\<close>

definition filterNewMessages :: "state \<Rightarrow> message list \<Rightarrow> message list" where
  "filterNewMessages s msgs =
     (let lastChecked = (case lastCheckedMessages s (currentEmail s) of
                           None \<Rightarrow> {} | Some seen \<Rightarrow> seen)
      in filter (\<lambda>msg. msg_id msg \<notin> lastChecked) msgs)"

definition showEmailNotification :: "host \<Rightarrow> message \<Rightarrow> state \<Rightarrow> state" where
  "showEmailNotification h msg s =
     (if \<not> Notification_in_window h \<or> \<not> hasNotificationPermission s
      then showToast (''New email from '' @ msg_from msg) Success s
      else s\<lparr>notifications := notifications s @
                [(currentEmail s @ ''-'' @ show_int (msg_id msg), msg)]\<rparr>)"

text \<open>
  The body of the \<open>try\<close> in \<open>checkMail\<close>, run on the state the instance has when the
  response arrives. The body of a good response is an array of message summaries.
\<close>

definition checkMail_try :: "host \<Rightarrow> message list response \<Rightarrow> state \<Rightarrow> js_error + state \<times> message list" where
  "checkMail_try h resp s =
     (case resp of
        Fetch_rejected \<Rightarrow> Inl NetworkError
      | Status_not_ok n \<Rightarrow> Inl (HttpError n)
      | Body_not_json \<Rightarrow> Inl SyntaxError
      | Body msgs \<Rightarrow>
          (let index = findIndex (\<lambda>e. email e = currentEmail s) (emailDatabase s);
               s1 = (if index \<noteq> - 1
                     then saveToLocalStorage h
                            (s\<lparr>emailDatabase :=
                                 (emailDatabase s)[nat index :=
                                    (emailDatabase s ! nat index)\<lparr>messages := length msgs\<rparr>]\<rparr>)
                     else s);
               newMessages = filterNewMessages s1 msgs;
               s2 = s1\<lparr>lastCheckedMessages :=
                        (lastCheckedMessages s1)(currentEmail s1 \<mapsto> set (map msg_id msgs))\<rparr>
           in Inr (fold (showEmailNotification h) newMessages s2, msgs)))"

text \<open>The result is the state and what the method returns: the messages or \<open>undefined\<close>.\<close>

definition checkMail :: "host \<Rightarrow> bool \<Rightarrow> message list response \<Rightarrow> state \<Rightarrow> state \<times> message list option" where
  "checkMail h silent resp s =
     (if currentEmail s = []
      then ((if \<not> silent then showToast ''No email selected'' Error s else s), None)
      else (case checkMail_try h resp s of
              Inl e \<Rightarrow>
                ((if \<not> silent then showToast ''Failed to check messages'' Error s else s), None)
            | Inr (s', msgs) \<Rightarrow> (s', Some msgs)))"

subsection \<open>Deleting, clearing and sweeping\<close>

text \<open>\<open>xs.splice(index, 1)\<close>: a negative index counts from the end, and both are clamped.\<close>

definition splice1 :: "int \<Rightarrow> 'a list \<Rightarrow> 'a list" where
  "splice1 index xs =
     (let len = int (length xs);
          start = (if index < 0 then max (len + index) 0 else min index len)
      in take (nat start) xs @ drop (Suc (nat start)) xs)"

definition deleteEmailFromDB :: "host \<Rightarrow> int \<Rightarrow> state \<Rightarrow> state" where
  "deleteEmailFromDB h index s =
     showToast ''Email deleted from history'' Success
       (saveToLocalStorage h (s\<lparr>emailDatabase := splice1 index (emailDatabase s)\<rparr>))"

text \<open>\<open>confirmed\<close> is the answer to the \<open>confirm\<close> dialog.\<close>

definition clearDatabase :: "bool \<Rightarrow> state \<Rightarrow> state" where
  "clearDatabase confirmed s =
     (if confirmed
      then showToast ''History cleared'' Success
             (s\<lparr>emailDatabase := [],
                localStorage := (localStorage s)(storageKey s := None)\<rparr>)
      else s)"

text \<open>
  The callback of \<open>filter\<close> in \<open>checkExpirations\<close>, run over the entries in order:
  \<open>kept\<close> collects the entries the callback keeps, \<open>changed\<close> is the flag it sets.
\<close>

fun filter_expired :: "int \<Rightarrow> entry list \<Rightarrow> entry list \<Rightarrow> bool \<Rightarrow> entry list \<times> bool" where
  "filter_expired now [] kept changed = (kept, changed)"
| "filter_expired now (e # es) kept changed =
     (case expiration e of
        None \<Rightarrow> filter_expired now es (kept @ [e]) changed
      | Some expirationDate \<Rightarrow>
          if expirationDate \<le> now then filter_expired now es kept True
          else filter_expired now es (kept @ [e]) changed)"

definition checkExpirations :: "host \<Rightarrow> int \<Rightarrow> state \<Rightarrow> state" where
  "checkExpirations h now s =
     (case filter_expired now (emailDatabase s) [] False of
        (db, changed) \<Rightarrow>
          (let s1 = s\<lparr>emailDatabase := db\<rparr>
           in if changed then saveToLocalStorage h s1 else s1))"

subsection \<open>Sequences of store operations\<close>

text \<open>
  The events that reach the store: a generated address, a commit from the dialog (preset
  or custom), a recorded message count, a poll, a sweep at a given time, a deletion by
  row index and a clear.
\<close>

datatype store_op =
    Generate "mailbox_data response"
  | Commit int "number option"
  | CommitCustom int string string
  | RecordMessageCount nat
  | Poll bool "message list response"
  | SweepExpired int
  | Delete int
  | Clear bool

fun apply_op :: "host \<Rightarrow> store_op \<Rightarrow> state \<Rightarrow> js_error + state" where
  "apply_op h (Generate resp) s = Inr (generateNewEmail resp s)"
| "apply_op h (Commit now hours) s = saveEmailWithExpiration h now hours s"
| "apply_op h (CommitCustom now timeValue unitValue) s =
     saveCustomExpiration h now timeValue unitValue s"
| "apply_op h (RecordMessageCount count) s = Inr (updateMessageCount h count s)"
| "apply_op h (Poll silent resp) s = Inr (fst (checkMail h silent resp s))"
| "apply_op h (SweepExpired now) s = Inr (checkExpirations h now s)"
| "apply_op h (Delete index) s = Inr (deleteEmailFromDB h index s)"
| "apply_op h (Clear confirmed) s = Inr (clearDatabase confirmed s)"

fun run_ops :: "host \<Rightarrow> store_op list \<Rightarrow> state \<Rightarrow> js_error + state" where
  "run_ops h [] s = Inr s"
| "run_ops h (x # xs) s =
     (case apply_op h x s of Inl e \<Rightarrow> Inl e | Inr s' \<Rightarrow> run_ops h xs s')"

fun is_commit :: "store_op \<Rightarrow> bool" where
  "is_commit (Commit now hours) = True"
| "is_commit (CommitCustom now timeValue unitValue) = True"
| "is_commit x = False"

definition addresses :: "state \<Rightarrow> string list" where
  "addresses s = map email (emailDatabase s)"

text \<open>
  Along a run, every commit happens while the current address is not the address of an
  entry of the collection.
\<close>

fun commits_fresh :: "host \<Rightarrow> store_op list \<Rightarrow> state \<Rightarrow> bool" where
  "commits_fresh h [] s = True"
| "commits_fresh h (x # xs) s =
     ((if is_commit x then currentEmail s \<notin> set (addresses s) else True) \<and>
      (case apply_op h x s of Inl e \<Rightarrow> True | Inr s' \<Rightarrow> commits_fresh h xs s'))"

subsection \<open>A state and a host to evaluate on\<close>

text \<open>The instance as the constructor leaves it before \<open>init\<close>, on a given storage.\<close>

definition new_state :: "string \<Rightarrow> (string \<rightharpoonup> string) \<Rightarrow> state" where
  "new_state dev storage =
     \<lparr>currentEmail = [], emailDatabase = [], lastCheckedMessages = Map.empty,
      hasNotificationPermission = False, deviceId = dev, localStorage = storage,
      expirationDialog = False, toasts = [], notifications = []\<rparr>"

text \<open>
  A host for the concrete evaluations below. Its codec agrees with JSON on the empty
  collection (\<open>[]\<close>) and on text that is no JSON; it writes other collections as the
  list of their addresses and reads none back.
\<close>

definition sample_stringify :: "entry list \<Rightarrow> string" where
  "sample_stringify db = ''['' @ concat (map (\<lambda>e. email e @ '','') db) @ '']''"

definition sample_parse :: "string \<Rightarrow> js_error + entry list" where
  "sample_parse txt = (if txt = ''[]'' then Inr [] else Inl SyntaxError)"

definition sample_host :: host where
  "sample_host =
     \<lparr>JSON_stringify = sample_stringify, JSON_parse = sample_parse,
      storage_full = (\<lambda>v. False),
      Number_toString = (\<lambda>n. case n of Num r \<Rightarrow> show_int \<lfloor>r\<rfloor> | _ \<Rightarrow> ''NaN''),
      Notification_in_window = True\<rparr>"

text \<open>
  A state with three entries: one that expires at time 5, one without expiration and one
  that expires at time 2. The first address is selected and two of its messages are seen.
\<close>

definition sample_state :: state where
  "sample_state =
     (new_state ''dev'' Map.empty)
       \<lparr>currentEmail := ''a@x.com'',
        emailDatabase :=
          [\<lparr>email = ''a@x.com'', date = 0, expiration = Some 5, messages = 0\<rparr>,
           \<lparr>email = ''b@x.com'', date = 0, expiration = None, messages = 0\<rparr>,
           \<lparr>email = ''c@x.com'', date = 0, expiration = Some 2, messages = 0\<rparr>],
        lastCheckedMessages := [''a@x.com'' \<mapsto> {1, 2}]\<rparr>"

text \<open>The same state with an address selected that no entry has.\<close>

definition stale_state :: state where
  "stale_state = sample_state\<lparr>currentEmail := ''gone@x.com''\<rparr>"

text \<open>A fresh instance whose persisted record is not JSON.\<close>

definition corrupt_state :: state where
  "corrupt_state = new_state ''dev'' [''emailDatabase_dev'' \<mapsto> ''{broken'']"

text \<open>A fresh instance whose persisted record is the text of a collection.\<close>

definition stored_state :: state where
  "stored_state =
     (new_state ''dev'' [''emailDatabase_dev'' \<mapsto> ''[a@x.com,]''])
       \<lparr>currentEmail := ''a@x.com'',
        emailDatabase :=
          [\<lparr>email = ''a@x.com'', date = 0, expiration = None, messages = 0\<rparr>]\<rparr>"

definition sample_messages :: "message list" where
  "sample_messages =
     [\<lparr>msg_id = 2, msg_from = ''p@y.org'', msg_subject = ''two''\<rparr>,
      \<lparr>msg_id = 3, msg_from = ''q@y.org'', msg_subject = ''three''\<rparr>,
      \<lparr>msg_id = 4, msg_from = ''r@y.org'', msg_subject = ''four''\<rparr>]"

text \<open>
  A run that generates and commits three different addresses, records a count, sweeps
  after the first has expired and deletes the first row that is left.
\<close>

definition sample_run :: "store_op list" where
  "sample_run =
     [Generate (Body (Array [''a@x.com''])), Commit 1000 (Some (Num 1)),
      Generate (Body (Array [''b@x.com''])), Commit 2000 None,
      Generate (Body (Array [''c@x.com''])), CommitCustom 3000 ''2'' ''24'',
      RecordMessageCount 3, SweepExpired 5000000, Delete 0]"

text \<open>A run in which the service hands out the same address twice and both are committed.\<close>

definition duplicate_run :: "store_op list" where
  "duplicate_run =
     [Generate (Body (Array [''a@x.com''])), Commit 1000 None,
      Generate (Body (Array [''a@x.com''])), Commit 2000 None]"

section \<open>Properties\<close>

subsection \<open>Auxiliary facts\<close>

lemma saveToLocalStorage_fields:
  "emailDatabase (saveToLocalStorage h s) = emailDatabase s"
  "currentEmail (saveToLocalStorage h s) = currentEmail s"
  "lastCheckedMessages (saveToLocalStorage h s) = lastCheckedMessages s"
  "toasts (saveToLocalStorage h s) = toasts s"
  "notifications (saveToLocalStorage h s) = notifications s"
  "hasNotificationPermission (saveToLocalStorage h s) = hasNotificationPermission s"
  "deviceId (saveToLocalStorage h s) = deviceId s"
  "expirationDialog (saveToLocalStorage h s) = expirationDialog s"
  by (simp_all add: saveToLocalStorage_def localStorage_setItem_def)

text \<open>The loop of the sweep is a filter, and the flag tells whether it dropped an entry.\<close>

lemma filter_expired_eq:
  "filter_expired now es kept changed =
     (kept @ filter (\<lambda>e. case expiration e of None \<Rightarrow> True | Some t \<Rightarrow> now < t) es,
      changed \<or> (\<exists>e \<in> set es. case expiration e of None \<Rightarrow> False | Some t \<Rightarrow> t \<le> now))"
  by (induction es arbitrary: kept changed) (auto split: option.splits)

lemma checkExpirations_db:
  "emailDatabase (checkExpirations h now s) =
     filter (\<lambda>e. case expiration e of None \<Rightarrow> True | Some t \<Rightarrow> now < t) (emailDatabase s)"
  by (simp add: checkExpirations_def filter_expired_eq Let_def saveToLocalStorage_fields)

lemma checkExpirations_noop:
  assumes "\<forall>e \<in> set (emailDatabase s). case expiration e of None \<Rightarrow> True | Some t \<Rightarrow> now < t"
  shows "checkExpirations h now s = s"
proof -
  have f: "filter (\<lambda>e. case expiration e of None \<Rightarrow> True | Some t \<Rightarrow> now < t)
             (emailDatabase s) = emailDatabase s"
    using assms by (simp add: filter_id_conv)
  have c: "\<not> (\<exists>e \<in> set (emailDatabase s).
                 case expiration e of None \<Rightarrow> False | Some t \<Rightarrow> t \<le> now)"
    using assms by (fastforce split: option.splits)
  show ?thesis
    using c by (simp add: checkExpirations_def filter_expired_eq f del: bex_simps)
qed

subsection \<open>Rounding to doubles\<close>

lemma pow2_less_cancel: "(2::rat) powi a < 2 powi b \<Longrightarrow> a < b"
proof (rule ccontr)
  assume lt: "(2::rat) powi a < 2 powi b" and "\<not> a < b"
  then have "b \<le> a" by simp
  then have "(2::rat) powi b \<le> 2 powi a" by (rule power_int_increasing) simp
  with lt show False by simp
qed

lemma round_even_bounds:
  "of_int (round_even q) \<le> q + 1 / 2" "q - 1 / 2 \<le> of_int (round_even q)"
proof -
  define f where "f = \<lfloor>q\<rfloor>"
  have a: "of_int f \<le> q" and b: "q < of_int f + 1" unfolding f_def by linarith+
  have r: "round_even q =
     (if q - of_int f < 1 / 2 then f else if 1 / 2 < q - of_int f then f + 1
      else if even f then f else f + 1)"
    by (simp add: round_even_def Let_def f_def)
  show "of_int (round_even q) \<le> q + 1 / 2"
    unfolding r using a b by (auto split: if_splits)
  show "q - 1 / 2 \<le> of_int (round_even q)"
    unfolding r using a b by (auto split: if_splits)
qed

lemma round_even_of_int: "round_even (of_int n) = n"
  by (simp add: round_even_def)

lemma bitlen_powi_bounds:
  assumes "0 < p"
  shows "(2::rat) powi (bitlen p - 1) \<le> of_int p" and "of_int p < (2::rat) powi bitlen p"
proof -
  have b1: "1 \<le> bitlen p" using assms bitlen_eq_zero_iff [of p] bitlen_nonneg [of p] by linarith
  from bitlen_bounds [OF assms]
  have lo: "2 ^ nat (bitlen p - 1) \<le> p" and hi: "p < 2 ^ nat (bitlen p)" by simp_all
  have "(of_int (2 ^ nat (bitlen p - 1)) :: rat) \<le> of_int p"
    using lo by (simp only: of_int_le_iff)
  then show "(2::rat) powi (bitlen p - 1) \<le> of_int p"
    using b1 by (simp add: power_int_nonneg_exp)
  have "(of_int p :: rat) < of_int (2 ^ nat (bitlen p))"
    using hi by (simp only: of_int_less_iff)
  then show "of_int p < (2::rat) powi bitlen p"
    using b1 by (simp add: power_int_nonneg_exp)
qed

lemma floor_log2_bounds:
  assumes "0 < x"
  shows "2 powi floor_log2 x \<le> x" and "x < 2 powi (floor_log2 x + 1)"
proof -
  obtain p q where pq: "quotient_of x = (p, q)" by (cases "quotient_of x")
  have q: "0 < q" using pq by (rule quotient_of_denom_pos)
  have x: "x = of_int p / of_int q" using pq by (rule quotient_of_div)
  have p: "0 < p" using assms q x by (simp add: zero_less_divide_iff)
  note P = bitlen_powi_bounds [OF p] and Q = bitlen_powi_bounds [OF q]
  have qpos: "(0::rat) < of_int q" using q by simp
  have up: "x < 2 powi (bitlen p - bitlen q + 1)"
  proof -
    have "x < 2 powi bitlen p / of_int q"
      unfolding x using P(2) qpos by (simp add: divide_strict_right_mono)
    also have "\<dots> \<le> 2 powi bitlen p / 2 powi (bitlen q - 1)"
    proof (rule divide_left_mono [OF Q(1)])
      show "(0::rat) \<le> 2 powi bitlen p" by simp
      show "(0::rat) < of_int q * 2 powi (bitlen q - 1)" using qpos by simp
    qed
    also have "\<dots> = 2 powi (bitlen p - (bitlen q - 1))"
      by (simp add: power_int_diff)
    finally show ?thesis by (simp add: algebra_simps)
  qed
  have lo: "2 powi (bitlen p - bitlen q - 1) \<le> x"
  proof -
    have e: "bitlen p - bitlen q - 1 = (bitlen p - 1) - bitlen q" by simp
    have "(2::rat) powi (bitlen p - bitlen q - 1) = 2 powi (bitlen p - 1) / 2 powi bitlen q"
      unfolding e by (rule power_int_diff) simp
    also have "\<dots> \<le> of_int p / 2 powi bitlen q"
      using P(1) by (intro divide_right_mono) simp_all
    also have "\<dots> \<le> of_int p / of_int q"
      using Q(2) p qpos by (intro divide_left_mono) simp_all
    finally show ?thesis by (simp add: x)
  qed
  show "2 powi floor_log2 x \<le> x"
    using lo by (simp add: floor_log2_def pq Let_def)
  show "x < 2 powi (floor_log2 x + 1)"
    using up by (auto simp: floor_log2_def pq Let_def)
qed

lemma floor_log2_unique:
  assumes "2 powi e \<le> x" and "x < 2 powi (e + 1)"
  shows "floor_log2 x = e"
proof -
  have pos: "0 < x" using assms(1) by (rule less_le_trans [rotated]) simp
  note B = floor_log2_bounds [OF pos]
  have "(2::rat) powi e < 2 powi (floor_log2 x + 1)" using assms(1) B(2) by simp
  then have 1: "e < floor_log2 x + 1" by (rule pow2_less_cancel)
  have "(2::rat) powi floor_log2 x < 2 powi (e + 1)" using assms(2) B(1) by simp
  then have 2: "floor_log2 x < e + 1" by (rule pow2_less_cancel)
  show ?thesis using 1 2 by simp
qed

lemma floor_log2_less:
  assumes "0 < x" and "x < 2 powi e"
  shows "floor_log2 x < e"
proof -
  have "(2::rat) powi floor_log2 x < 2 powi e"
    using floor_log2_bounds(1) [OF assms(1)] assms(2) by simp
  then show ?thesis by (rule pow2_less_cancel)
qed

lemma to_double_upper:
  assumes "0 < x" and "x < 2 powi e"
  shows "to_double x \<le> x + 2 powi (max (e - 53) (- 1074)) / 2"
proof -
  define k where "k = max (floor_log2 \<bar>x\<bar> - 52) (- 1074)"
  have fl: "floor_log2 \<bar>x\<bar> < e" using assms by (simp add: floor_log2_less)
  then have kle: "k \<le> max (e - 53) (- 1074)" by (simp add: k_def)
  have pk: "(0::rat) < 2 powi k" by simp
  have td: "to_double x = of_int (round_even (x / 2 powi k)) * 2 powi k"
    using assms(1) by (simp add: to_double_def Let_def k_def)
  have "of_int (round_even (x / 2 powi k)) \<le> x / 2 powi k + 1 / 2"
    by (rule round_even_bounds)
  then have "of_int (round_even (x / 2 powi k)) * 2 powi k \<le> (x / 2 powi k + 1 / 2) * 2 powi k"
    using pk by (simp only: mult_le_cancel_right_pos)
  also have "\<dots> = x + 2 powi k / 2" using pk by (simp add: field_simps)
  also have "\<dots> \<le> x + 2 powi (max (e - 53) (- 1074)) / 2"
    using kle by (simp add: power_int_increasing)
  finally show ?thesis by (simp add: td)
qed

lemma to_double_below_60:
  assumes "0 \<le> x" and "x < 60 - 1 / 2 ^ 48"
  shows "to_double x < 60"
proof (cases "x = 0")
  case True
  then show ?thesis by (simp add: to_double_def)
next
  case False
  then have pos: "0 < x" using assms(1) by simp
  have "x < 2 powi 6" using assms(2) by simp
  from to_double_upper [OF pos this]
  have "to_double x \<le> x + 2 powi (- 47) / 2" by simp
  also have "\<dots> = x + 1 / 2 ^ 48" by (simp add: power_int_minus_divide)
  also have "\<dots> < 60" using assms(2) by simp
  finally show ?thesis .
qed

lemma double_grid:
  assumes "is_double h" and "2 powi e \<le> h" and "h < 2 powi (e + 1)" and "- 1074 \<le> e - 52"
  shows "\<exists>n::int. h = of_int n * 2 powi (e - 52)"
proof -
  have pos: "0 < h" using assms(2) by (rule less_le_trans [rotated]) simp
  have fl: "floor_log2 \<bar>h\<bar> = e" using assms(2,3) pos by (simp add: floor_log2_unique)
  have td: "to_double h = h"
    using assms(1) by (simp add: is_double_def double_of_def Let_def split: if_splits)
  have k: "max (floor_log2 \<bar>h\<bar> - 52) (- 1074) = e - 52"
    unfolding fl using assms(4) by simp
  have "to_double h = of_int (round_even (h / 2 powi (e - 52))) * 2 powi (e - 52)"
    unfolding to_double_def Let_def k using pos by simp
  with td show ?thesis by metis
qed

lemma one_minute_double: "to_double (1 / 60) = 4803839602528529 / 2 ^ 58"
  by code_simp

lemma below_minute_product:
  assumes "is_double h" and "0 \<le> h" and "h < to_double (1 / 60)"
  shows "h * 3600 < 60 - 1 / 2 ^ 48"
proof (cases "h < 1 / 64")
  case True
  then have "h * 3600 < 3600 / 64" by simp
  also have "\<dots> < (60 - 1 / 2 ^ 48 :: rat)" by simp
  finally show ?thesis .
next
  case False
  then have lo: "2 powi (- 6) \<le> h" by (simp add: power_int_minus_divide)
  have hi: "h < 2 powi (- 6 + 1)"
    using assms(3) by (simp add: one_minute_double power_int_minus_divide)
  from double_grid [OF assms(1) lo hi]
  obtain n :: int where n: "h = of_int n * 2 powi (- 58)" by auto
  then have hn: "h = of_int n / 2 ^ 58" by (simp add: power_int_minus_divide)
  have "of_int n / 2 ^ 58 < (4803839602528529 / 2 ^ 58 :: rat)"
    using assms(3) by (simp add: one_minute_double hn)
  then have "(of_int n :: rat) < 4803839602528529"
    by (simp add: divide_less_cancel)
  then have "n < 4803839602528529" by linarith
  then have "n \<le> 4803839602528528" by simp
  then have "(of_int n :: rat) \<le> 4803839602528528" by linarith
  then have "h \<le> 4803839602528528 / 2 ^ 58" by (simp add: hn divide_right_mono)
  then have "h * 3600 \<le> 4803839602528528 / 2 ^ 58 * 3600" by simp
  also have "\<dots> < (60 - 1 / 2 ^ 48 :: rat)" by simp
  finally show ?thesis .
qed

lemma show_nat_digit: "n < 10 \<Longrightarrow> show_nat n = [digit_char n]"
  by (simp add: show_nat.simps)

lemma show_nat_two:
  "10 \<le> n \<Longrightarrow> n < 100 \<Longrightarrow> show_nat n = [digit_char (n div 10), digit_char (n mod 10)]"
  by (subst show_nat.simps) (simp add: show_nat_digit)

lemma digit_char_nonzero: "0 < d \<Longrightarrow> d < 10 \<Longrightarrow> digit_char d \<noteq> CHR ''0''"
proof -
  assume "0 < d" "d < 10"
  then have "d \<in> {1, 2, 3, 4, 5, 6, 7, 8, 9}" by auto
  then show ?thesis by (auto simp: digit_char_def)
qed

subsection \<open>The expiration sweep\<close>

text \<open>
  C1 (amended). For every state and every time \<open>now\<close>, \<open>checkExpirations\<close> keeps, in
  their order, exactly the entries whose expiration is \<open>null\<close> or later than \<open>now\<close>,
  so it removes exactly those whose expiration is set and at most \<open>now\<close>. A second sweep
  at the same time, or at an earlier one, changes nothing. A second sweep at a later time
  is not covered: it removes the entries that expired in between.
\<close>

theorem checkExpirations_sweep:
  "emailDatabase (checkExpirations h now s) =
     filter (\<lambda>e. case expiration e of None \<Rightarrow> True | Some t \<Rightarrow> now < t) (emailDatabase s)
   \<and> (now' \<le> now \<longrightarrow>
        checkExpirations h now' (checkExpirations h now s) = checkExpirations h now s)"
proof (intro conjI impI)
  show "emailDatabase (checkExpirations h now s) =
     filter (\<lambda>e. case expiration e of None \<Rightarrow> True | Some t \<Rightarrow> now < t) (emailDatabase s)"
    by (rule checkExpirations_db)
next
  assume le: "now' \<le> now"
  show "checkExpirations h now' (checkExpirations h now s) = checkExpirations h now s"
  proof (rule checkExpirations_noop)
    show "\<forall>e \<in> set (emailDatabase (checkExpirations h now s)).
            case expiration e of None \<Rightarrow> True | Some t \<Rightarrow> now' < t"
      using le by (auto simp: checkExpirations_db split: option.splits)
  qed
qed

theorem checkExpirations_sweep_witness:
  "emailDatabase (checkExpirations sample_host 3 sample_state) =
     [\<lparr>email = ''a@x.com'', date = 0, expiration = Some 5, messages = 0\<rparr>,
      \<lparr>email = ''b@x.com'', date = 0, expiration = None, messages = 0\<rparr>]
   \<and> (3::int) \<le> 3
   \<and> checkExpirations sample_host 3 (checkExpirations sample_host 3 sample_state) =
       checkExpirations sample_host 3 sample_state"
  using checkExpirations_sweep [of sample_host 3 sample_state 3]
  by (simp add: sample_state_def new_state_def)

text \<open>
  The claim as written also covers a later second sweep. The entry that expires at time 5
  survives the sweep at time 3 and is removed by the sweep at time 7.
\<close>

theorem checkExpirations_later_counterexample:
  "emailDatabase (checkExpirations sample_host 7 (checkExpirations sample_host 3 sample_state))
     \<noteq> emailDatabase (checkExpirations sample_host 3 sample_state)"
  by (simp add: checkExpirations_db sample_state_def new_state_def)

subsection \<open>Formatting the time left\<close>

text \<open>
  C2 (amended). \<open>formatTimeLeft\<close> gives \<open>1h 15m\<close> for 1.25 hours; \<open>1m 0s\<close> for one
  minute, that is for the double \<open>1/60\<close>, which is also what 60000 milliseconds left
  give as hours; the week and day form \<open>1w 1d\<close> for 200 hours, which is above the 168
  hours of a week; and the one word \<open>Expired\<close> for every negative input.
\<close>

theorem formatTimeLeft_points:
  "formatTimeLeft (5 / 4) = ''1h 15m''
   \<and> formatTimeLeft (to_double (1 / 60)) = ''1m 0s''
   \<and> formatTimeLeft (hoursLeft 60000 0) = ''1m 0s''
   \<and> formatTimeLeft 200 = ''1w 1d''
   \<and> is_double (5 / 4) \<and> is_double (to_double (1 / 60)) \<and> is_double 200
   \<and> (\<forall>h. h < 0 \<longrightarrow> formatTimeLeft h = ''Expired'')"
proof (intro conjI allI impI)
  show "formatTimeLeft (5 / 4) = ''1h 15m''" by code_simp
  show "formatTimeLeft (to_double (1 / 60)) = ''1m 0s''" by code_simp
  show "formatTimeLeft (hoursLeft 60000 0) = ''1m 0s''" by code_simp
  show "formatTimeLeft 200 = ''1w 1d''" by code_simp
  show "is_double (5 / 4)" by code_simp
  show "is_double (to_double (1 / 60))" by code_simp
  show "is_double 200" by code_simp
  show "formatTimeLeft h = ''Expired''" if "h < 0" for h
    using that by (simp add: formatTimeLeft_def)
qed

theorem formatTimeLeft_points_witness:
  "(- 1 :: rat) < 0 \<and> formatTimeLeft (- 1) = ''Expired''"
  using formatTimeLeft_points by simp

text \<open>The claim as written expects the day and hour form at 200 hours.\<close>

theorem formatTimeLeft_200_counterexample:
  "formatTimeLeft 200 \<noteq> ''8d 8h''"
  by code_simp

text \<open>
  C10. For every double from zero up to, but not including, one minute (the double
  \<open>1/60\<close>), \<open>formatTimeLeft\<close> gives the seconds alone, \<open>Ns\<close> with \<open>N\<close> between 1 and
  59: the count is raised to 1, \<open>0s\<close> never appears, and zero hours left gives \<open>1s\<close>,
  not \<open>Expired\<close>.
\<close>

theorem formatTimeLeft_under_minute:
  assumes "is_double h" and "0 \<le> h" and "h < to_double (1 / 60)"
  shows "formatTimeLeft h = show_int (max 1 \<lfloor>to_double (h * 3600)\<rfloor>) @ ''s''
         \<and> 1 \<le> max 1 \<lfloor>to_double (h * 3600)\<rfloor> \<and> max 1 \<lfloor>to_double (h * 3600)\<rfloor> \<le> 59
         \<and> formatTimeLeft h \<noteq> ''0s''
         \<and> formatTimeLeft 0 = ''1s''"
proof -
  define N where "N = max 1 \<lfloor>to_double (h * 3600)\<rfloor>"
  have "h * 3600 < 60 - 1 / 2 ^ 48"
    using assms by (rule below_minute_product)
  moreover have "0 \<le> h * 3600" using assms(2) by simp
  ultimately have "to_double (h * 3600) < 60" by (intro to_double_below_60)
  then have lt: "\<lfloor>to_double (h * 3600)\<rfloor> < 60" by (simp add: floor_less_iff)
  have fmt: "formatTimeLeft h = show_int N @ ''s''"
    using assms(2,3) by (simp add: formatTimeLeft_def Let_def N_def)
  have rng: "1 \<le> N" "N \<le> 59" using lt by (simp_all add: N_def)
  have nz: "show_int N \<noteq> ''0''"
  proof (cases "N < 10")
    case True
    then have "show_int N = [digit_char (nat N)]"
      using rng by (simp add: show_int_def show_nat_digit)
    moreover have "digit_char (nat N) \<noteq> CHR ''0''"
      using True rng by (intro digit_char_nonzero) simp_all
    ultimately show ?thesis by simp
  next
    case False
    then have "show_int N = [digit_char (nat N div 10), digit_char (nat N mod 10)]"
      using rng by (simp add: show_int_def show_nat_two)
    then show ?thesis by simp
  qed
  have zero: "formatTimeLeft 0 = ''1s''" by code_simp
  show ?thesis using fmt rng nz zero by (simp add: N_def [symmetric])
qed

theorem formatTimeLeft_under_minute_witness:
  "is_double (hoursLeft 2000 0) \<and> 0 \<le> hoursLeft 2000 0
   \<and> hoursLeft 2000 0 < to_double (1 / 60)
   \<and> formatTimeLeft (hoursLeft 2000 0) = ''2s''
   \<and> is_double (4803839602528528 / 2 ^ 58) \<and> (0::rat) \<le> 4803839602528528 / 2 ^ 58
   \<and> 4803839602528528 / 2 ^ 58 < to_double (1 / 60)
   \<and> formatTimeLeft (4803839602528528 / 2 ^ 58) = ''59s''
   \<and> formatTimeLeft 0 = ''1s''"
proof -
  have a: "is_double (hoursLeft 2000 0)" by code_simp
  have b: "0 \<le> hoursLeft 2000 0" by code_simp
  have c: "hoursLeft 2000 0 < to_double (1 / 60)" by code_simp
  have d: "show_int (max 1 \<lfloor>to_double (hoursLeft 2000 0 * 3600)\<rfloor>) = ''2''" by code_simp
  have a': "is_double (4803839602528528 / 2 ^ 58)" by code_simp
  have b': "(0::rat) \<le> 4803839602528528 / 2 ^ 58" by simp
  have c': "4803839602528528 / 2 ^ 58 < to_double (1 / 60)" by code_simp
  have d': "show_int (max 1 \<lfloor>to_double (4803839602528528 / 2 ^ 58 * 3600)\<rfloor>) = ''59''"
    by code_simp
  have e: "formatTimeLeft (hoursLeft 2000 0) = ''2s''"
    using formatTimeLeft_under_minute [OF a b c] by (simp only: d) simp
  have e': "formatTimeLeft (4803839602528528 / 2 ^ 58) = ''59s''"
    using formatTimeLeft_under_minute [OF a' b' c'] by (simp only: d') simp
  have z: "formatTimeLeft 0 = ''1s''"
    using formatTimeLeft_under_minute [OF a b c] by simp
  show ?thesis using a b c e a' b' c' e' z by (intro conjI)
qed

subsection \<open>Rejecting a custom expiration\<close>

text \<open>A text whose first character after the white space cannot start a number.\<close>

lemma parseFloat_no_number:
  assumes "dropWhile is_space txt = [] \<or>
           (\<exists>c rest. dropWhile is_space txt = c # rest \<and> c \<notin> set ''+-.0123456789I'')"
  shows "parseFloat txt = NaN"
proof (cases "dropWhile is_space txt")
  case Nil
  show ?thesis unfolding parseFloat_def Nil by simp
next
  case (Cons c rest)
  with assms have c: "c \<notin> set ''+-.0123456789I''" by auto
  then have nd: "\<not> is_digit c" by (auto simp: is_digit_def)
  have inf: "take 8 (c # rest) \<noteq> ''Infinity''" using c by auto
  have "strUnsignedDecimal (c # rest) = NaN"
    using c nd inf by (simp add: strUnsignedDecimal_def Let_def)
  then show ?thesis unfolding parseFloat_def Cons using c by simp
qed

text \<open>
  C3 (amended). For every state, \<open>saveCustomExpiration\<close> with a magnitude text that
  \<open>parseFloat\<close> reads as \<open>NaN\<close> (a text with no number at its start, such as the empty
  text or \<open>abc\<close>), as zero or as a negative number is rejected: the method returns
  without raising, shows the error toast \<open>Please enter a valid time\<close>, leaves the dialog
  as it is, and leaves the entry collection and the local storage unchanged. A text that
  is not a number but starts with a positive one is not covered: it is read as that
  number.
\<close>

theorem saveCustomExpiration_rejects:
  assumes "parseFloat timeValue = NaN \<or> parseFloat timeValue = NegInf
           \<or> (\<exists>r. parseFloat timeValue = Num r \<and> r \<le> 0)"
  shows "\<exists>s'. saveCustomExpiration h now timeValue unitValue s = Inr s'
           \<and> emailDatabase s' = emailDatabase s
           \<and> localStorage s' = localStorage s
           \<and> expirationDialog s' = expirationDialog s
           \<and> toasts s' = toasts s @ [(''Please enter a valid time'', Error)]"
proof -
  have "number_falsy (parseFloat timeValue) \<or> js_le (parseFloat timeValue) (Num 0)"
    using assms by auto
  then have "saveCustomExpiration h now timeValue unitValue s =
               Inr (showToast ''Please enter a valid time'' Error s)"
    by (simp add: saveCustomExpiration_def Let_def)
  then show ?thesis by (simp add: showToast_def)
qed

theorem saveCustomExpiration_rejects_witness:
  "parseFloat ''0'' = Num 0 \<and> parseFloat ''-5'' = Num (- 5) \<and> parseFloat ''abc'' = NaN
   \<and> emailDatabase (projr (saveCustomExpiration sample_host 1000 ''0'' ''24'' sample_state))
     = emailDatabase sample_state
   \<and> localStorage (projr (saveCustomExpiration sample_host 1000 ''-5'' ''1'' sample_state))
     = localStorage sample_state
   \<and> \<not> isl (saveCustomExpiration sample_host 1000 ''abc'' ''1'' sample_state)"
proof -
  have a: "parseFloat ''0'' = Num 0" by code_simp
  have b: "parseFloat ''-5'' = Num (- 5)" by code_simp
  have c: "parseFloat ''abc'' = NaN" by code_simp
  show ?thesis
    using saveCustomExpiration_rejects [of "''0''" sample_host 1000 "''24''" sample_state]
      saveCustomExpiration_rejects [of "''-5''" sample_host 1000 "''1''" sample_state]
      saveCustomExpiration_rejects [of "''abc''" sample_host 1000 "''1''" sample_state]
      a b c
    by auto
qed

text \<open>
  The claim as written has every magnitude that is not a number rejected. The text
  \<open>5abc\<close> is read as 5: no error toast is shown and an entry that expires in five hours
  is appended.
\<close>

theorem saveCustomExpiration_counterexample:
  "parseFloat ''5abc'' = Num 5
   \<and> \<not> isl (saveCustomExpiration sample_host 1000 ''5abc'' ''1'' stale_state)
   \<and> emailDatabase (projr (saveCustomExpiration sample_host 1000 ''5abc'' ''1'' stale_state))
       = emailDatabase stale_state @
           [\<lparr>email = ''gone@x.com'', date = 1000, expiration = Some 18001000, messages = 0\<rparr>]
   \<and> toasts (projr (saveCustomExpiration sample_host 1000 ''5abc'' ''1'' stale_state))
       = [(''Email saved with 5 hour expiration'', Success)]"
  by code_simp

subsection \<open>Restoring the persisted collection\<close>

text \<open>
  C4. For every content of the local storage, \<open>loadFromLocalStorage\<close> returns normally,
  and when \<open>JSON.parse\<close> raises on the persisted text the entry collection becomes empty
  while the rest of the state stays as it was.
\<close>

theorem loadFromLocalStorage_total:
  "\<exists>s'. loadFromLocalStorage h s = Inr s'
         \<and> (\<forall>stored e. localStorage s (storageKey s) = Some stored
                         \<and> JSON_parse h stored = Inl e
               \<longrightarrow> s' = s\<lparr>emailDatabase := []\<rparr>)"
  by (auto simp: loadFromLocalStorage_def loadFromLocalStorage_try_def
      split: option.splits sum.splits)

theorem loadFromLocalStorage_total_witness:
  "localStorage corrupt_state (storageKey corrupt_state) = Some ''{broken''
   \<and> JSON_parse sample_host ''{broken'' = Inl SyntaxError
   \<and> loadFromLocalStorage sample_host corrupt_state = Inr (corrupt_state\<lparr>emailDatabase := []\<rparr>)"
proof -
  have a: "localStorage corrupt_state (storageKey corrupt_state) = Some ''{broken''"
    by (simp add: corrupt_state_def new_state_def storageKey_def)
  have b: "JSON_parse sample_host ''{broken'' = Inl SyntaxError"
    by (simp add: sample_host_def sample_parse_def)
  show ?thesis
    using loadFromLocalStorage_total [of sample_host corrupt_state] a b by auto
qed

subsection \<open>Recording the message count\<close>

lemma findIndex_from_none:
  "(findIndex_from p xs i = - 1) = (\<forall>x \<in> set xs. \<not> p x)"
  by (induction xs arbitrary: i) auto

lemma findIndex_from_first:
  "k < length xs \<Longrightarrow> p (xs ! k) \<Longrightarrow> \<forall>j < k. \<not> p (xs ! j) \<Longrightarrow>
   findIndex_from p xs i = int (i + k)"
proof (induction xs arbitrary: i k)
  case Nil
  then show ?case by simp
next
  case (Cons x xs)
  show ?case
  proof (cases k)
    case 0
    with Cons.prems show ?thesis by simp
  next
    case (Suc k')
    have nx: "\<not> p x" using Cons.prems(3) Suc by auto
    have "findIndex_from p xs (Suc i) = int (Suc i + k')"
    proof (rule Cons.IH)
      show "k' < length xs" using Cons.prems(1) Suc by simp
      show "p (xs ! k')" using Cons.prems(2) Suc by simp
      show "\<forall>j < k'. \<not> p (xs ! j)" using Cons.prems(3) Suc by auto
    qed
    with nx Suc show ?thesis by simp
  qed
qed

lemma findIndex_none: "(findIndex p xs = - 1) = (\<forall>x \<in> set xs. \<not> p x)"
  by (simp add: findIndex_def findIndex_from_none)

lemma findIndex_first:
  "k < length xs \<Longrightarrow> p (xs ! k) \<Longrightarrow> \<forall>j < k. \<not> p (xs ! j) \<Longrightarrow> findIndex p xs = int k"
  using findIndex_from_first [of k xs p 0] by (simp add: findIndex_def)

lemma findIndex_absent:
  assumes "a \<notin> set (addresses s)"
  shows "findIndex (\<lambda>e. email e = a) (emailDatabase s) = - 1"
proof -
  have "\<forall>x \<in> set (emailDatabase s). email x \<noteq> a"
  proof
    fix x
    assume "x \<in> set (emailDatabase s)"
    then have "email x \<in> set (addresses s)" by (simp add: addresses_def)
    with assms show "email x \<noteq> a" by auto
  qed
  then show ?thesis by (simp add: findIndex_none)
qed

lemma showEmailNotification_fields:
  "emailDatabase (showEmailNotification h m s) = emailDatabase s"
  "localStorage (showEmailNotification h m s) = localStorage s"
  "currentEmail (showEmailNotification h m s) = currentEmail s"
  "lastCheckedMessages (showEmailNotification h m s) = lastCheckedMessages s"
  "hasNotificationPermission (showEmailNotification h m s) = hasNotificationPermission s"
  by (simp_all add: showEmailNotification_def showToast_def)

lemma fold_showEmailNotification_fields:
  "emailDatabase (fold (showEmailNotification h) ms s) = emailDatabase s"
  "localStorage (fold (showEmailNotification h) ms s) = localStorage s"
  "currentEmail (fold (showEmailNotification h) ms s) = currentEmail s"
  "lastCheckedMessages (fold (showEmailNotification h) ms s) = lastCheckedMessages s"
  "hasNotificationPermission (fold (showEmailNotification h) ms s) = hasNotificationPermission s"
  by (induction ms arbitrary: s) (simp_all add: showEmailNotification_fields)

lemma checkMail_absent:
  assumes "currentEmail s \<notin> set (addresses s)"
  shows "emailDatabase (fst (checkMail h silent resp s)) = emailDatabase s"
    and "localStorage (fst (checkMail h silent resp s)) = localStorage s"
proof -
  have idx: "findIndex (\<lambda>e. email e = currentEmail s) (emailDatabase s) = - 1"
    using assms by (rule findIndex_absent)
  show "emailDatabase (fst (checkMail h silent resp s)) = emailDatabase s"
    by (cases resp)
       (simp_all add: checkMail_def checkMail_try_def idx Let_def showToast_def
          fold_showEmailNotification_fields)
  show "localStorage (fst (checkMail h silent resp s)) = localStorage s"
    by (cases resp)
       (simp_all add: checkMail_def checkMail_try_def idx Let_def showToast_def
          fold_showEmailNotification_fields)
qed

lemma checkMail_present:
  assumes "currentEmail s \<noteq> []"
    and "findIndex (\<lambda>e. email e = currentEmail s) (emailDatabase s) = int i"
  shows "emailDatabase (fst (checkMail h silent (Body msgs) s)) =
           (emailDatabase s)[i := (emailDatabase s ! i)\<lparr>messages := length msgs\<rparr>]"
  using assms
  by (simp add: checkMail_def checkMail_try_def Let_def fold_showEmailNotification_fields
      saveToLocalStorage_fields)

lemma checkMail_failure:
  assumes "resp \<in> {Fetch_rejected, Status_not_ok n, Body_not_json}"
  shows "emailDatabase (fst (checkMail h silent resp s)) = emailDatabase s"
  using assms by (auto simp: checkMail_def checkMail_try_def showToast_def)

text \<open>
  C5. For every state, when no entry has the selected address, \<open>updateMessageCount\<close>
  returns the state as it is, and a poll (\<open>checkMail\<close>, whatever the response) leaves
  the entry collection and the local storage as they are; neither raises. When an entry
  has the selected address, \<open>updateMessageCount\<close> sets \<open>messages\<close> to the given count on
  the first such entry, and a poll whose response is a list of messages sets it to the
  length of that list on the first such entry; the other entries are left alone.
\<close>

theorem updateMessageCount_spec:
  "(currentEmail s \<notin> set (addresses s) \<longrightarrow>
      updateMessageCount h count s = s
      \<and> emailDatabase (fst (checkMail h silent resp s)) = emailDatabase s
      \<and> localStorage (fst (checkMail h silent resp s)) = localStorage s)
   \<and> (\<forall>i. i < length (emailDatabase s) \<and> email (emailDatabase s ! i) = currentEmail s
           \<and> (\<forall>j < i. email (emailDatabase s ! j) \<noteq> currentEmail s) \<longrightarrow>
         emailDatabase (updateMessageCount h count s) =
           (emailDatabase s)[i := (emailDatabase s ! i)\<lparr>messages := count\<rparr>]
         \<and> (currentEmail s \<noteq> [] \<longrightarrow>
              emailDatabase (fst (checkMail h silent (Body msgs) s)) =
                (emailDatabase s)[i := (emailDatabase s ! i)\<lparr>messages := length msgs\<rparr>]))"
proof (intro conjI allI impI)
  assume a: "currentEmail s \<notin> set (addresses s)"
  then have "findIndex (\<lambda>e. email e = currentEmail s) (emailDatabase s) = - 1"
    by (rule findIndex_absent)
  then show "updateMessageCount h count s = s"
    by (simp add: updateMessageCount_def)
  show "emailDatabase (fst (checkMail h silent resp s)) = emailDatabase s"
    using a by (rule checkMail_absent)
  show "localStorage (fst (checkMail h silent resp s)) = localStorage s"
    using a by (rule checkMail_absent)
next
  fix i
  assume b: "i < length (emailDatabase s) \<and> email (emailDatabase s ! i) = currentEmail s
           \<and> (\<forall>j < i. email (emailDatabase s ! j) \<noteq> currentEmail s)"
  then have idx: "findIndex (\<lambda>e. email e = currentEmail s) (emailDatabase s) = int i"
    by (intro findIndex_first) simp_all
  then show "emailDatabase (updateMessageCount h count s) =
           (emailDatabase s)[i := (emailDatabase s ! i)\<lparr>messages := count\<rparr>]"
    by (simp add: updateMessageCount_def saveToLocalStorage_fields)
  show "emailDatabase (fst (checkMail h silent (Body msgs) s)) =
          (emailDatabase s)[i := (emailDatabase s ! i)\<lparr>messages := length msgs\<rparr>]"
    if "currentEmail s \<noteq> []"
    using that idx by (rule checkMail_present)
qed

theorem updateMessageCount_spec_witness:
  "currentEmail stale_state \<notin> set (addresses stale_state)
   \<and> updateMessageCount sample_host 7 stale_state = stale_state
   \<and> emailDatabase (fst (checkMail sample_host True (Body sample_messages) stale_state))
       = emailDatabase stale_state
   \<and> (0::nat) < length (emailDatabase sample_state)
   \<and> email (emailDatabase sample_state ! 0) = currentEmail sample_state
   \<and> currentEmail sample_state \<noteq> []
   \<and> emailDatabase (updateMessageCount sample_host 7 sample_state) =
       [\<lparr>email = ''a@x.com'', date = 0, expiration = Some 5, messages = 7\<rparr>,
        \<lparr>email = ''b@x.com'', date = 0, expiration = None, messages = 0\<rparr>,
        \<lparr>email = ''c@x.com'', date = 0, expiration = Some 2, messages = 0\<rparr>]
   \<and> emailDatabase (fst (checkMail sample_host True (Body sample_messages) sample_state)) =
       [\<lparr>email = ''a@x.com'', date = 0, expiration = Some 5, messages = 3\<rparr>,
        \<lparr>email = ''b@x.com'', date = 0, expiration = None, messages = 0\<rparr>,
        \<lparr>email = ''c@x.com'', date = 0, expiration = Some 2, messages = 0\<rparr>]"
proof -
  have a: "currentEmail stale_state \<notin> set (addresses stale_state)"
    by (simp add: stale_state_def sample_state_def new_state_def addresses_def)
  have b: "0 < length (emailDatabase sample_state) \<and>
           email (emailDatabase sample_state ! 0) = currentEmail sample_state \<and>
           (\<forall>j < 0. email (emailDatabase sample_state ! j) \<noteq> currentEmail sample_state)"
    by (simp add: sample_state_def new_state_def)
  have n: "currentEmail sample_state \<noteq> []"
    by (simp add: sample_state_def new_state_def)
  have c: "(emailDatabase sample_state)[0 := (emailDatabase sample_state ! 0)\<lparr>messages := 7\<rparr>] =
       [\<lparr>email = ''a@x.com'', date = 0, expiration = Some 5, messages = 7\<rparr>,
        \<lparr>email = ''b@x.com'', date = 0, expiration = None, messages = 0\<rparr>,
        \<lparr>email = ''c@x.com'', date = 0, expiration = Some 2, messages = 0\<rparr>]"
    by (simp add: sample_state_def new_state_def)
  have c': "(emailDatabase sample_state)[0 := (emailDatabase sample_state ! 0)
                \<lparr>messages := length sample_messages\<rparr>] =
       [\<lparr>email = ''a@x.com'', date = 0, expiration = Some 5, messages = 3\<rparr>,
        \<lparr>email = ''b@x.com'', date = 0, expiration = None, messages = 0\<rparr>,
        \<lparr>email = ''c@x.com'', date = 0, expiration = Some 2, messages = 0\<rparr>]"
    by (simp add: sample_state_def new_state_def sample_messages_def)
  from updateMessageCount_spec [of stale_state sample_host 7 True "Body sample_messages"]
  have d: "updateMessageCount sample_host 7 stale_state = stale_state"
    and d': "emailDatabase (fst (checkMail sample_host True (Body sample_messages) stale_state))
               = emailDatabase stale_state"
    using a by simp_all
  from updateMessageCount_spec [of sample_state sample_host 7 True Fetch_rejected sample_messages]
  have e: "emailDatabase (updateMessageCount sample_host 7 sample_state) =
           (emailDatabase sample_state)[0 := (emailDatabase sample_state ! 0)\<lparr>messages := 7\<rparr>]"
    and e': "emailDatabase (fst (checkMail sample_host True (Body sample_messages) sample_state)) =
           (emailDatabase sample_state)[0 := (emailDatabase sample_state ! 0)
              \<lparr>messages := length sample_messages\<rparr>]"
    using b n by blast+
  show ?thesis using a b n d d' e e' by (simp only: c c' simp_thms)
qed

subsection \<open>Generating an address\<close>

lemma generateNewEmail_failure:
  "resp \<in> {Fetch_rejected, Status_not_ok n, Body_not_json} \<Longrightarrow>
   generateNewEmail resp s = showToast ''Failed to generate email'' Error s"
  by (auto simp: generateNewEmail_def generateNewEmail_try_def)

text \<open>
  C6. When the remote call succeeds with an empty array, or with a body that is JSON but
  no array, \<open>generateNewEmail\<close> returns the state exactly as it was: nothing is raised
  and no toast is shown, while a rejected fetch, a bad status and a body that is no JSON
  do show the toast \<open>Failed to generate email\<close>.
\<close>

theorem generateNewEmail_empty_silent:
  "generateNewEmail (Body (Array [])) s = s
   \<and> generateNewEmail (Body Not_array) s = s
   \<and> toasts (generateNewEmail (Body (Array [])) s) = toasts s
   \<and> generateNewEmail Fetch_rejected s = showToast ''Failed to generate email'' Error s"
  by (simp add: generateNewEmail_def generateNewEmail_try_def)

subsection \<open>The notification delta of a poll\<close>

lemma fold_notify_native:
  assumes "Notification_in_window h" and "hasNotificationPermission s"
  shows "notifications (fold (showEmailNotification h) ms s) =
           notifications s @ map (\<lambda>m. (currentEmail s @ ''-'' @ show_int (msg_id m), m)) ms
         \<and> toasts (fold (showEmailNotification h) ms s) = toasts s"
  using assms
proof (induction ms arbitrary: s)
  case Nil
  then show ?case by simp
next
  case (Cons m ms)
  have step: "hasNotificationPermission (showEmailNotification h m s)"
    using Cons.prems by (simp add: showEmailNotification_fields)
  have one: "showEmailNotification h m s =
               s\<lparr>notifications := notifications s @
                    [(currentEmail s @ ''-'' @ show_int (msg_id m), m)]\<rparr>"
    using Cons.prems by (simp add: showEmailNotification_def)
  show ?case
    using Cons.IH [OF Cons.prems(1) step] by (simp add: one)
qed

lemma fold_notify_toast:
  assumes "\<not> (Notification_in_window h \<and> hasNotificationPermission s)"
  shows "toasts (fold (showEmailNotification h) ms s) =
           toasts s @ map (\<lambda>m. (''New email from '' @ msg_from m, Success)) ms
         \<and> notifications (fold (showEmailNotification h) ms s) = notifications s"
  using assms
proof (induction ms arbitrary: s)
  case Nil
  then show ?case by simp
next
  case (Cons m ms)
  have one: "showEmailNotification h m s =
               showToast (''New email from '' @ msg_from m) Success s"
    using Cons.prems by (auto simp: showEmailNotification_def)
  have step: "\<not> (Notification_in_window h \<and>
                  hasNotificationPermission (showEmailNotification h m s))"
    using Cons.prems by (simp add: showEmailNotification_fields)
  show ?case
    using Cons.IH [OF step] by (simp add: one showToast_def)
qed

lemma checkMail_try_body:
  "checkMail_try h (Body msgs) s =
     Inr (fold (showEmailNotification h) (filterNewMessages s msgs)
            ((if findIndex (\<lambda>e. email e = currentEmail s) (emailDatabase s) \<noteq> - 1
              then saveToLocalStorage h
                     (s\<lparr>emailDatabase :=
                          (emailDatabase s)[nat (findIndex (\<lambda>e. email e = currentEmail s) (emailDatabase s)) :=
                             (emailDatabase s ! nat (findIndex (\<lambda>e. email e = currentEmail s) (emailDatabase s)))
                               \<lparr>messages := length msgs\<rparr>]\<rparr>)
              else s)
             \<lparr>lastCheckedMessages :=
                (lastCheckedMessages s)(currentEmail s \<mapsto> set (map msg_id msgs))\<rparr>), msgs)"
  by (simp add: checkMail_try_def Let_def filterNewMessages_def saveToLocalStorage_fields)

text \<open>
  C7. For every state with a selected address and every fetched list of messages, the
  messages the poll notifies are those of \<open>filterNewMessages\<close>, whose ids are exactly the
  fetched ids minus the ids recorded for the address before (none recorded counts as the
  empty set); each is surfaced once, as a system notification when the interface exists
  and permission is granted and as a toast otherwise; and afterwards the recorded set of
  the address is the set of fetched ids, whatever it was before, the sets of the other
  addresses being untouched.
\<close>

theorem checkMail_delta:
  assumes "currentEmail s \<noteq> []"
  shows "msg_id ` set (filterNewMessages s msgs) =
           set (map msg_id msgs) -
             (case lastCheckedMessages s (currentEmail s) of None \<Rightarrow> {} | Some seen \<Rightarrow> seen)
   \<and> lastCheckedMessages (fst (checkMail h silent (Body msgs) s)) =
       (lastCheckedMessages s)(currentEmail s \<mapsto> set (map msg_id msgs))
   \<and> snd (checkMail h silent (Body msgs) s) = Some msgs
   \<and> (if Notification_in_window h \<and> hasNotificationPermission s
      then notifications (fst (checkMail h silent (Body msgs) s)) =
             notifications s @
               map (\<lambda>m. (currentEmail s @ ''-'' @ show_int (msg_id m), m))
                 (filterNewMessages s msgs)
           \<and> toasts (fst (checkMail h silent (Body msgs) s)) = toasts s
      else toasts (fst (checkMail h silent (Body msgs) s)) =
             toasts s @
               map (\<lambda>m. (''New email from '' @ msg_from m, Success))
                 (filterNewMessages s msgs)
           \<and> notifications (fst (checkMail h silent (Body msgs) s)) = notifications s)"
proof -
  define s2 where "s2 =
    (if findIndex (\<lambda>e. email e = currentEmail s) (emailDatabase s) \<noteq> - 1
              then saveToLocalStorage h
                     (s\<lparr>emailDatabase :=
                          (emailDatabase s)[nat (findIndex (\<lambda>e. email e = currentEmail s) (emailDatabase s)) :=
                             (emailDatabase s ! nat (findIndex (\<lambda>e. email e = currentEmail s) (emailDatabase s)))
                               \<lparr>messages := length msgs\<rparr>]\<rparr>)
              else s)
             \<lparr>lastCheckedMessages :=
                (lastCheckedMessages s)(currentEmail s \<mapsto> set (map msg_id msgs))\<rparr>"
  have run: "checkMail h silent (Body msgs) s =
               (fold (showEmailNotification h) (filterNewMessages s msgs) s2, Some msgs)"
    using assms by (simp add: checkMail_def checkMail_try_body s2_def)
  have s2_fields: "lastCheckedMessages s2 =
                     (lastCheckedMessages s)(currentEmail s \<mapsto> set (map msg_id msgs))"
      "currentEmail s2 = currentEmail s" "toasts s2 = toasts s"
      "notifications s2 = notifications s"
      "hasNotificationPermission s2 = hasNotificationPermission s"
    by (simp_all add: s2_def saveToLocalStorage_fields)
  have delta: "msg_id ` set (filterNewMessages s msgs) =
           set (map msg_id msgs) -
             (case lastCheckedMessages s (currentEmail s) of None \<Rightarrow> {} | Some seen \<Rightarrow> seen)"
    by (auto simp: filterNewMessages_def)
  have seen: "lastCheckedMessages (fst (checkMail h silent (Body msgs) s)) =
       (lastCheckedMessages s)(currentEmail s \<mapsto> set (map msg_id msgs))"
    by (simp add: run fold_showEmailNotification_fields s2_fields)
  have ret: "snd (checkMail h silent (Body msgs) s) = Some msgs"
    by (simp add: run)
  show ?thesis
  proof (cases "Notification_in_window h \<and> hasNotificationPermission s")
    case True
    then have "Notification_in_window h" "hasNotificationPermission s2"
      by (simp_all add: s2_fields)
    from fold_notify_native [OF this, of "filterNewMessages s msgs"]
    have out: "notifications (fst (checkMail h silent (Body msgs) s)) =
             notifications s @
               map (\<lambda>m. (currentEmail s @ ''-'' @ show_int (msg_id m), m))
                 (filterNewMessages s msgs)
           \<and> toasts (fst (checkMail h silent (Body msgs) s)) = toasts s"
      by (simp add: run s2_fields)
    show ?thesis
      unfolding if_P [OF True] using delta seen ret out by blast
  next
    case False
    then have "\<not> (Notification_in_window h \<and> hasNotificationPermission s2)"
      by (simp add: s2_fields)
    from fold_notify_toast [OF this, of "filterNewMessages s msgs"]
    have out: "toasts (fst (checkMail h silent (Body msgs) s)) =
             toasts s @
               map (\<lambda>m. (''New email from '' @ msg_from m, Success))
                 (filterNewMessages s msgs)
           \<and> notifications (fst (checkMail h silent (Body msgs) s)) = notifications s"
      by (simp add: run s2_fields)
    show ?thesis
      unfolding if_not_P [OF False] using delta seen ret out by blast
  qed
qed

theorem checkMail_delta_witness:
  "currentEmail sample_state \<noteq> []
   \<and> lastCheckedMessages sample_state (currentEmail sample_state) = Some {1, 2}
   \<and> msg_id ` set (filterNewMessages sample_state sample_messages) = {3, 4}
   \<and> lastCheckedMessages (fst (checkMail sample_host True (Body sample_messages) sample_state))
       (currentEmail sample_state) = Some {2, 3, 4}
   \<and> toasts (fst (checkMail sample_host True (Body sample_messages) sample_state)) =
       [(''New email from q@y.org'', Success), (''New email from r@y.org'', Success)]"
proof -
  have a: "currentEmail sample_state \<noteq> []"
    by (simp add: sample_state_def new_state_def)
  have b: "lastCheckedMessages sample_state (currentEmail sample_state) = Some {1, 2}"
    by (simp add: sample_state_def new_state_def)
  have c: "set (map msg_id sample_messages) = {2, 3, 4}"
    by (simp add: sample_messages_def)
  have d: "{2, 3, 4} - {1, 2} = {3, 4 :: int}" by auto
  have e: "filterNewMessages sample_state sample_messages =
             [\<lparr>msg_id = 3, msg_from = ''q@y.org'', msg_subject = ''three''\<rparr>,
              \<lparr>msg_id = 4, msg_from = ''r@y.org'', msg_subject = ''four''\<rparr>]"
    by (simp add: filterNewMessages_def b sample_messages_def)
  have f: "\<not> (Notification_in_window sample_host \<and> hasNotificationPermission sample_state)"
    by (simp add: sample_state_def new_state_def)
  have g: "toasts sample_state = []"
    by (simp add: sample_state_def new_state_def)
  show ?thesis
    using checkMail_delta [OF a, of sample_messages sample_host True] a b c d f g
    by (simp add: e)
qed

subsection \<open>Clearing the history\<close>

text \<open>
  C8 (amended). For every state, a confirmed \<open>clearDatabase\<close> empties the entry
  collection and removes the persisted record from the local storage (it writes no empty
  collection), leaving the other records alone; a later \<open>loadFromLocalStorage\<close> then
  yields the empty collection. A clear that is not confirmed changes nothing.
\<close>

theorem clearDatabase_removes_record:
  "emailDatabase (clearDatabase True s) = []
   \<and> localStorage (clearDatabase True s) = (localStorage s)(storageKey s := None)
   \<and> storageKey (clearDatabase True s) = storageKey s
   \<and> (\<exists>s'. loadFromLocalStorage h (clearDatabase True s) = Inr s' \<and> emailDatabase s' = [])
   \<and> clearDatabase False s = s"
  by (simp add: clearDatabase_def showToast_def storageKey_def loadFromLocalStorage_def
      loadFromLocalStorage_try_def)

theorem clearDatabase_removes_record_witness:
  "emailDatabase (clearDatabase True stored_state) = []
   \<and> localStorage (clearDatabase True stored_state) ''emailDatabase_dev'' = None"
  using clearDatabase_removes_record [of stored_state sample_host]
  by (simp add: storageKey_def stored_state_def new_state_def)

text \<open>
  The claim as written has the empty collection written to the record. After the clear
  the record that was there is gone, and so does not hold the text of the empty
  collection.
\<close>

theorem clearDatabase_counterexample:
  "localStorage stored_state (storageKey stored_state) = Some ''[a@x.com,]''
   \<and> localStorage (clearDatabase True stored_state) (storageKey stored_state) = None
   \<and> localStorage (clearDatabase True stored_state) (storageKey stored_state)
       \<noteq> Some (JSON_stringify sample_host [])"
  by (simp add: clearDatabase_def showToast_def storageKey_def stored_state_def new_state_def)

subsection \<open>Uniqueness of addresses\<close>

lemma map_email_update:
  "map email (xs[i := (xs ! i)\<lparr>messages := c\<rparr>]) = map email xs"
proof (cases "i < length xs")
  case True
  then show ?thesis by (simp add: map_update list_update_same_conv)
next
  case False
  then have "xs[i := (xs ! i)\<lparr>messages := c\<rparr>] = xs"
    by (intro list_update_beyond) simp
  then show ?thesis by simp
qed

lemma addresses_saveToLocalStorage: "addresses (saveToLocalStorage h s) = addresses s"
  by (simp add: addresses_def saveToLocalStorage_fields)

lemma addresses_showToast: "addresses (showToast m t s) = addresses s"
  by (simp add: addresses_def showToast_def)

lemma addresses_generateNewEmail: "addresses (generateNewEmail resp s) = addresses s"
  by (auto simp: addresses_def generateNewEmail_def generateNewEmail_try_def showToast_def
      showExpirationDialog_def split: response.splits mailbox_data.splits list.splits)

lemma addresses_saveEmailWithExpiration:
  "saveEmailWithExpiration h now hours s = Inr s' \<Longrightarrow>
   addresses s' = addresses s @ [currentEmail s]"
  by (auto simp: saveEmailWithExpiration_def Let_def addresses_def showToast_def
      saveToLocalStorage_fields split: sum.splits)

lemma addresses_saveCustomExpiration:
  "saveCustomExpiration h now timeValue unitValue s = Inr s' \<Longrightarrow>
   addresses s' = addresses s \<or> addresses s' = addresses s @ [currentEmail s]"
  by (auto simp: saveCustomExpiration_def Let_def addresses_showToast
      dest: addresses_saveEmailWithExpiration split: if_splits)

lemma addresses_updateMessageCount: "addresses (updateMessageCount h c s) = addresses s"
  by (simp add: updateMessageCount_def Let_def addresses_def saveToLocalStorage_fields
      map_email_update)

lemma addresses_checkMail: "addresses (fst (checkMail h silent resp s)) = addresses s"
  by (cases resp)
     (simp_all add: checkMail_def checkMail_try_def Let_def addresses_def showToast_def
        fold_showEmailNotification_fields saveToLocalStorage_fields map_email_update)

lemma distinct_checkExpirations:
  "distinct (addresses s) \<Longrightarrow> distinct (addresses (checkExpirations h now s))"
  by (simp add: addresses_def checkExpirations_db distinct_map_filter)

lemma distinct_remove_nth:
  assumes "distinct (map f xs)"
  shows "distinct (map f (take n xs @ drop (Suc n) xs))"
proof (cases "n < length xs")
  case True
  then have "xs = take n xs @ xs ! n # drop (Suc n) xs"
    by (simp add: id_take_nth_drop)
  then have "map f xs = map f (take n xs) @ f (xs ! n) # map f (drop (Suc n) xs)"
    by (metis list.simps(9) map_append)
  with assms show ?thesis by auto
next
  case False
  with assms show ?thesis by simp
qed

lemma distinct_splice1:
  "distinct (map f xs) \<Longrightarrow> distinct (map f (splice1 index xs))"
  unfolding splice1_def Let_def by (rule distinct_remove_nth)

lemma distinct_deleteEmailFromDB:
  "distinct (addresses s) \<Longrightarrow> distinct (addresses (deleteEmailFromDB h index s))"
  by (simp add: deleteEmailFromDB_def addresses_showToast addresses_saveToLocalStorage)
     (simp add: addresses_def distinct_splice1)

lemma addresses_clearDatabase:
  "addresses (clearDatabase c s) = (if c then [] else addresses s)"
  by (simp add: clearDatabase_def addresses_def showToast_def)

lemma apply_op_distinct:
  assumes "distinct (addresses s)"
    and "is_commit x \<Longrightarrow> currentEmail s \<notin> set (addresses s)"
    and "apply_op h x s = Inr s1"
  shows "distinct (addresses s1)"
proof (cases x)
  case (Generate resp)
  with assms show ?thesis by (auto simp: addresses_generateNewEmail)
next
  case (Commit now hours)
  with assms addresses_saveEmailWithExpiration [of h now hours s s1]
  show ?thesis by auto
next
  case (CommitCustom now timeValue unitValue)
  with assms addresses_saveCustomExpiration [of h now timeValue unitValue s s1]
  show ?thesis by auto
next
  case (RecordMessageCount c)
  with assms show ?thesis by (auto simp: addresses_updateMessageCount)
next
  case (Poll silent resp)
  with assms show ?thesis by (auto simp: addresses_checkMail)
next
  case (SweepExpired now)
  with assms show ?thesis by (auto simp: distinct_checkExpirations)
next
  case (Delete index)
  with assms show ?thesis by (auto simp: distinct_deleteEmailFromDB)
next
  case (Clear c)
  with assms show ?thesis by (auto simp: addresses_clearDatabase)
qed

lemma sum_Inr_projr: "\<not> isl r \<Longrightarrow> r = Inr (projr r)"
  by (cases r) simp_all

text \<open>
  C9 (amended). From a state whose entries have pairwise different addresses, every run
  of store operations (generate, commit, custom commit, record count, poll, sweep, delete,
  clear) in which each commit happens while no entry has the current address ends in a
  state whose entries have pairwise different addresses. A commit does not look for an
  entry with the same address: it appends.
\<close>

theorem unique_addresses_preserved:
  assumes "distinct (addresses s)"
    and "commits_fresh h ops s"
    and "run_ops h ops s = Inr s'"
  shows "distinct (addresses s')"
  using assms
proof (induction ops arbitrary: s)
  case Nil
  then show ?case by simp
next
  case (Cons x xs)
  from Cons.prems(3) obtain s1 where step: "apply_op h x s = Inr s1"
    and rest: "run_ops h xs s1 = Inr s'"
    by (auto split: sum.splits)
  have fresh: "is_commit x \<Longrightarrow> currentEmail s \<notin> set (addresses s)"
    using Cons.prems(2) by (simp split: if_splits)
  have d1: "distinct (addresses s1)"
    using Cons.prems(1) fresh step by (rule apply_op_distinct)
  have f1: "commits_fresh h xs s1"
    using Cons.prems(2) step by simp
  show ?case using d1 f1 rest by (rule Cons.IH)
qed

theorem unique_addresses_preserved_witness:
  "distinct (addresses (new_state ''dev'' Map.empty))
   \<and> commits_fresh sample_host sample_run (new_state ''dev'' Map.empty)
   \<and> \<not> isl (run_ops sample_host sample_run (new_state ''dev'' Map.empty))
   \<and> addresses (projr (run_ops sample_host sample_run (new_state ''dev'' Map.empty)))
       = [''c@x.com'']
   \<and> distinct (addresses (projr (run_ops sample_host sample_run (new_state ''dev'' Map.empty))))"
proof -
  have a: "distinct (addresses (new_state ''dev'' Map.empty))"
    by (simp add: addresses_def new_state_def)
  have b: "commits_fresh sample_host sample_run (new_state ''dev'' Map.empty)"
    by code_simp
  have c: "\<not> isl (run_ops sample_host sample_run (new_state ''dev'' Map.empty))"
    by code_simp
  have d: "addresses (projr (run_ops sample_host sample_run (new_state ''dev'' Map.empty)))
             = [''c@x.com'']"
    by code_simp
  have e: "run_ops sample_host sample_run (new_state ''dev'' Map.empty) =
           Inr (projr (run_ops sample_host sample_run (new_state ''dev'' Map.empty)))"
    using c by (rule sum_Inr_projr)
  show ?thesis
    using unique_addresses_preserved [OF a b e] a b c d by simp
qed

text \<open>
  The claim as written has a commit keep the addresses unique also when the committed
  address is the address of an entry. When the same address is generated and committed
  twice, from the empty collection, there are two entries with that address.
\<close>

theorem unique_addresses_counterexample:
  "\<not> isl (run_ops sample_host duplicate_run (new_state ''dev'' Map.empty))
   \<and> addresses (projr (run_ops sample_host duplicate_run (new_state ''dev'' Map.empty)))
       = [''a@x.com'', ''a@x.com'']
   \<and> \<not> distinct (addresses (projr (run_ops sample_host duplicate_run (new_state ''dev'' Map.empty))))"
  by code_simp

end
